theory Spec2Isabelle
  imports Main
begin

section \<open>The "add existing repository" dialog: path validation and trust\<close>

text \<open>
  The component \<^verbatim>\<open>AddExistingRepository\<close> keeps the entered path and the outcome of the
  last validation in its React state. Validation is asynchronous: \<^verbatim>\<open>validatePath\<close>
  awaits \<^verbatim>\<open>getRepositoryType\<close>, \<^verbatim>\<open>onTrustDirectory\<close> awaits \<^verbatim>\<open>addSafeDirectory\<close> and then
  \<^verbatim>\<open>validatePath\<close>. JavaScript runs each stretch of code between two awaits without
  interruption, so every handler below is one such stretch: a function from the
  configuration before it to the configuration after it. A configuration holds the
  component state, the suspended awaits, and a log of the calls made to the two external
  operations. \<^verbatim>\<open>setState\<close> is modelled as an immediate merge into the state; the updater
  form \<^verbatim>\<open>setState(state => ...)\<close> receives that merged state.
\<close>

subsection \<open>Data\<close>

text \<open>
  Modelled from the spec: the declaration of the value returned by \<^verbatim>\<open>getRepositoryType\<close>
  (module \<^verbatim>\<open>lib/git\<close>) is not among the sources of the component. The component reads its
  \<^verbatim>\<open>kind\<close>, comparing it with \<^verbatim>\<open>'missing'\<close>, \<^verbatim>\<open>'unsafe'\<close> and \<^verbatim>\<open>'bare'\<close>, and the \<^verbatim>\<open>path\<close> of
  an unsafe result. The fourth kind is the usable, non-bare repository (the spec's
  \<open>Valid\<close>).
\<close>

datatype RepositoryType = Missing | Unsafe string | Bare | Regular

fun kind :: "RepositoryType \<Rightarrow> string" where
  "kind Missing = ''missing''"
| "kind (Unsafe u) = ''unsafe''"
| "kind Bare = ''bare''"
| "kind Regular = ''regular''"

text \<open>\<^verbatim>\<open>IAddExistingRepositoryState\<close>; the optional field is an \<open>option\<close>.\<close>

record IAddExistingRepositoryState =
  path :: string
  isRepository :: bool
  showNonGitRepositoryWarning :: bool
  isRepositoryBare :: bool
  isRepositoryUnsafe :: bool
  repositoryUnsafePath :: "string option"
  isTrustingRepository :: bool

text \<open>The three places that await \<^verbatim>\<open>validatePath\<close>.\<close>

datatype caller = UpdatePath | ComponentDidMount | OnTrustDirectory

text \<open>
  A suspended await: \<open>AwaitSafeDirectory u p\<close> is \<^verbatim>\<open>onTrustDirectory\<close> waiting for
  \<^verbatim>\<open>addSafeDirectory(u)\<close>, with \<open>p\<close> the value of its local \<^verbatim>\<open>path\<close>;
  \<open>AwaitRepositoryType p who\<close> is \<^verbatim>\<open>validatePath(p)\<close>, called by \<open>who\<close>, waiting for
  \<^verbatim>\<open>getRepositoryType(p)\<close>; \<open>AwaitValidatePath who\<close> is \<open>who\<close> waiting at
  \<^verbatim>\<open>await this.validatePath(path)\<close> for a call that has already returned.
\<close>

datatype task =
    AwaitSafeDirectory string string
  | AwaitRepositoryType string caller
  | AwaitValidatePath caller

datatype call = AddSafeDirectory string | GetRepositoryType string

record config =
  state :: IAddExistingRepositoryState
  pending :: "task list"
  calls :: "call list"
  unhandledRejections :: nat

subsection \<open>Construction and mounting\<close>

text \<open>\<^verbatim>\<open>this.props.path ? this.props.path : ''\<close>: an absent and an empty prop both give \<open>''\<close>.\<close>

definition initialState :: "string option \<Rightarrow> IAddExistingRepositoryState" where
  "initialState propsPath =
     \<lparr> path = (case propsPath of None \<Rightarrow> [] | Some p \<Rightarrow> p),
       isRepository = False,
       showNonGitRepositoryWarning = False,
       isRepositoryBare = False,
       isRepositoryUnsafe = False,
       repositoryUnsafePath = None,
       isTrustingRepository = False \<rparr>"

definition constructor :: "string option \<Rightarrow> config" where
  "constructor propsPath =
     \<lparr> state = initialState propsPath, pending = [], calls = [], unhandledRejections = 0 \<rparr>"

subsection \<open>validatePath\<close>

text \<open>
  The part of \<^verbatim>\<open>validatePath(p)\<close> that runs at the call: for the empty path three fields are
  reset and the function returns (its caller then waits at its own await); otherwise
  \<^verbatim>\<open>getRepositoryType(p)\<close> is called and awaited.
\<close>

definition validatePath :: "string \<Rightarrow> caller \<Rightarrow> config \<Rightarrow> config" where
  "validatePath p who c =
     (if length p = 0
      then c\<lparr> state := (state c)\<lparr> isRepository := False,
                                     isRepositoryBare := False,
                                     showNonGitRepositoryWarning := False \<rparr>,
               pending := pending c @ [AwaitValidatePath who] \<rparr>
      else c\<lparr> calls := calls c @ [GetRepositoryType p],
               pending := pending c @ [AwaitRepositoryType p who] \<rparr>)"

text \<open>The five values computed from the result, and the guarded update of the state.\<close>

definition applyRepositoryType ::
  "string \<Rightarrow> RepositoryType \<Rightarrow> IAddExistingRepositoryState \<Rightarrow> IAddExistingRepositoryState" where
  "applyRepositoryType p type s =
     (let isRepository' = (kind type \<noteq> ''missing'' \<and> kind type \<noteq> ''unsafe'');
          isRepositoryUnsafe' = (kind type = ''unsafe'');
          isRepositoryBare' = (kind type = ''bare'');
          showNonGitRepositoryWarning' = (\<not> isRepository' \<or> isRepositoryBare');
          repositoryUnsafePath' = (case type of Unsafe u \<Rightarrow> Some u | _ \<Rightarrow> None)
      in if p = path s
         then s\<lparr> isRepository := isRepository',
                 isRepositoryBare := isRepositoryBare',
                 isRepositoryUnsafe := isRepositoryUnsafe',
                 showNonGitRepositoryWarning := showNonGitRepositoryWarning',
                 repositoryUnsafePath := repositoryUnsafePath' \<rparr>
         else s)"

text \<open>
  The rest of \<^verbatim>\<open>validatePath(p)\<close>, run when \<^verbatim>\<open>getRepositoryType(p)\<close> delivers \<open>type\<close>; then
  \<^verbatim>\<open>validatePath\<close> returns and its caller is ready to go on.
\<close>

definition repositoryTypeResolved ::
  "string \<Rightarrow> caller \<Rightarrow> RepositoryType \<Rightarrow> config \<Rightarrow> config" where
  "repositoryTypeResolved p who type c =
     c\<lparr> state := applyRepositoryType p type (state c),
        pending := remove1 (AwaitRepositoryType p who) (pending c) @ [AwaitValidatePath who] \<rparr>"

text \<open>
  The caller going on after \<^verbatim>\<open>await this.validatePath(path)\<close>: only \<^verbatim>\<open>onTrustDirectory\<close> has
  a statement left, \<^verbatim>\<open>this.setState({ isTrustingRepository: false })\<close>.
\<close>

definition validatePathReturned :: "caller \<Rightarrow> config \<Rightarrow> config" where
  "validatePathReturned who c =
     (let c' = c\<lparr> pending := remove1 (AwaitValidatePath who) (pending c) \<rparr>
      in if who = OnTrustDirectory
         then c'\<lparr> state := (state c')\<lparr> isTrustingRepository := False \<rparr> \<rparr>
         else c')"

subsection \<open>Path edits\<close>

definition updatePath :: "string \<Rightarrow> config \<Rightarrow> config" where
  "updatePath p c =
     validatePath p UpdatePath (c\<lparr> state := (state c)\<lparr> path := p, isRepository := False \<rparr> \<rparr>)"

definition onPathChanged :: "string \<Rightarrow> config \<Rightarrow> config" where
  "onPathChanged p c = (if path (state c) \<noteq> p then updatePath p c else c)"

text \<open>\<^verbatim>\<open>showFilePicker\<close> once the open dialog has answered (\<open>None\<close> is \<^verbatim>\<open>null\<close>).\<close>

definition showFilePicker :: "string option \<Rightarrow> config \<Rightarrow> config" where
  "showFilePicker picked c = (case picked of None \<Rightarrow> c | Some p \<Rightarrow> updatePath p c)"

definition componentDidMount :: "config \<Rightarrow> config" where
  "componentDidMount c =
     (if length (path (state c)) \<noteq> 0
      then validatePath (path (state c)) ComponentDidMount c
      else c)"

subsection \<open>Trusting a directory\<close>

text \<open>
  \<^verbatim>\<open>if (repositoryUnsafePath)\<close>: an undefined value and the empty string are both falsy.
\<close>

definition truthy :: "string option \<Rightarrow> bool" where
  "truthy v = (case v of None \<Rightarrow> False | Some u \<Rightarrow> u \<noteq> [])"

text \<open>
  \<^verbatim>\<open>onTrustDirectory\<close> up to its first await. The locals \<^verbatim>\<open>repositoryUnsafePath\<close> and \<^verbatim>\<open>path\<close>
  are read here, before \<^verbatim>\<open>addSafeDirectory\<close> is awaited.
\<close>

definition onTrustDirectory :: "config \<Rightarrow> config" where
  "onTrustDirectory c =
     (let c1 = c\<lparr> state := (state c)\<lparr> isTrustingRepository := True \<rparr> \<rparr>;
          unsafePath = repositoryUnsafePath (state c1);
          p = path (state c1)
      in if truthy unsafePath
         then c1\<lparr> calls := calls c1 @ [AddSafeDirectory (the unsafePath)],
                  pending := pending c1 @ [AwaitSafeDirectory (the unsafePath) p] \<rparr>
         else validatePath p OnTrustDirectory c1)"

text \<open>\<^verbatim>\<open>addSafeDirectory(u)\<close> has completed: \<^verbatim>\<open>validatePath\<close> is called with the local \<^verbatim>\<open>path\<close>.\<close>

definition safeDirectoryResolved :: "string \<Rightarrow> string \<Rightarrow> config \<Rightarrow> config" where
  "safeDirectoryResolved u p c =
     validatePath p OnTrustDirectory (c\<lparr> pending := remove1 (AwaitSafeDirectory u p) (pending c) \<rparr>)"

text \<open>
  \<^verbatim>\<open>addSafeDirectory(u)\<close> has failed. The await throws, \<^verbatim>\<open>onTrustDirectory\<close> has no handler
  around it, so none of its remaining statements run and the promise it returned is
  rejected.
\<close>

definition safeDirectoryRejected :: "string \<Rightarrow> string \<Rightarrow> config \<Rightarrow> config" where
  "safeDirectoryRejected u p c =
     c\<lparr> pending := remove1 (AwaitSafeDirectory u p) (pending c),
        unhandledRejections := Suc (unhandledRejections c) \<rparr>"

subsection \<open>Rendering\<close>

text \<open>The \<^verbatim>\<open>disabled\<close> value of \<^verbatim>\<open>render\<close>, passed as \<^verbatim>\<open>okButtonDisabled\<close>.\<close>

definition okButtonDisabled :: "IAddExistingRepositoryState \<Rightarrow> bool" where
  "okButtonDisabled s = (length (path s) = 0 \<or> \<not> isRepository s \<or> isRepositoryBare s)"

text \<open>
  What \<^verbatim>\<open>renderWarning\<close> shows. The unsafe warning carries the link that calls
  \<^verbatim>\<open>onTrustDirectory\<close>; its flag says whether the flagged path is printed, which it is when it
  differs from the entered path (with backslashes turned into slashes on Windows).
\<close>

datatype warning =
    NoWarning
  | BareRepositoryWarning
  | UnsafeRepositoryWarning string bool
  | NotARepositoryWarning

definition renderWarning :: "bool \<Rightarrow> IAddExistingRepositoryState \<Rightarrow> warning" where
  "renderWarning win32 s =
     (if length (path s) = 0 \<or> \<not> showNonGitRepositoryWarning s then NoWarning
      else if isRepositoryBare s then BareRepositoryWarning
      else if isRepositoryUnsafe s \<and> repositoryUnsafePath s \<noteq> None
      then (let convertedPath =
                  (if win32 then map (\<lambda>ch. if ch = CHR 0x5C then CHR ''/'' else ch) (path s)
                   else path s)
            in UnsafeRepositoryWarning (the (repositoryUnsafePath s))
                 (the (repositoryUnsafePath s) \<noteq> convertedPath))
      else NotARepositoryWarning)"

subsection \<open>Runs\<close>

text \<open>
  The events the component reacts to. A completion is taken only while the await it
  completes is suspended; otherwise nothing happens.
\<close>

datatype event =
    PathChanged string
  | FilePicked "string option"
  | Mounted
  | TrustClicked
  | RepositoryTypeResolved string caller RepositoryType
  | ValidatePathReturned caller
  | SafeDirectoryResolved string string
  | SafeDirectoryRejected string string

fun step :: "config \<Rightarrow> event \<Rightarrow> config" where
  "step c (PathChanged p) = onPathChanged p c"
| "step c (FilePicked picked) = showFilePicker picked c"
| "step c Mounted = componentDidMount c"
| "step c TrustClicked = onTrustDirectory c"
| "step c (RepositoryTypeResolved p who type) =
     (if AwaitRepositoryType p who \<in> set (pending c)
      then repositoryTypeResolved p who type c else c)"
| "step c (ValidatePathReturned who) =
     (if AwaitValidatePath who \<in> set (pending c) then validatePathReturned who c else c)"
| "step c (SafeDirectoryResolved u p) =
     (if AwaitSafeDirectory u p \<in> set (pending c) then safeDirectoryResolved u p c else c)"
| "step c (SafeDirectoryRejected u p) =
     (if AwaitSafeDirectory u p \<in> set (pending c) then safeDirectoryRejected u p c else c)"

definition run :: "config \<Rightarrow> event list \<Rightarrow> config" where
  "run c evs = foldl step c evs"

text \<open>A run that consists of \<^verbatim>\<open>updatePath\<close> calls only, one per path of the list.\<close>

definition updatePaths :: "config \<Rightarrow> string list \<Rightarrow> config" where
  "updatePaths c ps = foldl (\<lambda>c' p. updatePath p c') c ps"

subsection \<open>Trust flows in flight\<close>

text \<open>
  The suspended awaits that belong to a run of \<^verbatim>\<open>onTrustDirectory\<close>: its wait for
  \<^verbatim>\<open>addSafeDirectory\<close>, the wait of the \<^verbatim>\<open>validatePath\<close> it called for \<^verbatim>\<open>getRepositoryType\<close>, and its
  own wait for that \<^verbatim>\<open>validatePath\<close>.
\<close>

fun ofTrustFlow :: "task \<Rightarrow> bool" where
  "ofTrustFlow (AwaitSafeDirectory u p) = True"
| "ofTrustFlow (AwaitRepositoryType p who) = (who = OnTrustDirectory)"
| "ofTrustFlow (AwaitValidatePath who) = (who = OnTrustDirectory)"

text \<open>Some run of \<^verbatim>\<open>onTrustDirectory\<close> has not finished yet.\<close>

definition trustInFlight :: "config \<Rightarrow> bool" where
  "trustInFlight c = (filter ofTrustFlow (pending c) \<noteq> [])"

text \<open>
  A sequence of events in which the link is clicked only while no earlier run of
  \<^verbatim>\<open>onTrustDirectory\<close> is in flight.
\<close>

fun trustFlowsApart :: "config \<Rightarrow> event list \<Rightarrow> bool" where
  "trustFlowsApart c [] = True"
| "trustFlowsApart c (ev # evs) =
     ((if ev = TrustClicked then \<not> trustInFlight c else True) \<and> trustFlowsApart (step c ev) evs)"

text \<open>
  At most one run of \<^verbatim>\<open>onTrustDirectory\<close> is in flight, and while one is, the flag is on.
\<close>

definition oneTrustFlow :: "config \<Rightarrow> bool" where
  "oneTrustFlow c =
     (length (filter ofTrustFlow (pending c)) \<le> 1
      \<and> (if trustInFlight c then isTrustingRepository (state c) else True))"

subsection \<open>Reading the state\<close>

text \<open>
  The state holds the repository type \<open>type\<close> when its five validation fields are the ones
  that an answer \<open>type\<close> for the current path writes: writing it again changes nothing.
\<close>

definition holdsRepositoryType :: "RepositoryType \<Rightarrow> IAddExistingRepositoryState \<Rightarrow> bool" where
  "holdsRepositoryType type s = (applyRepositoryType (path s) type s = s)"

text \<open>
  In a state that says there is a repository, nothing is left of an earlier unsafe answer
  and the warning is shown for a bare repository only.
\<close>

definition coherent :: "IAddExistingRepositoryState \<Rightarrow> bool" where
  "coherent s =
     (if isRepository s
      then \<not> isRepositoryUnsafe s \<and> repositoryUnsafePath s = None
           \<and> showNonGitRepositoryWarning s = isRepositoryBare s
      else True)"

subsection \<open>Resolving the entered path\<close>

text \<open>
  Modelled from the spec: \<^verbatim>\<open>resolvedPath\<close> is \<^verbatim>\<open>Path.resolve('/', untildify(path))\<close>, and
  neither \<^verbatim>\<open>untildify\<close> (an npm package) nor \<^verbatim>\<open>Path.resolve\<close> (Node's \<^verbatim>\<open>path\<close> module) is
  among the sources of the component. The spec says that the normalizer expands a leading
  home-directory shorthand \<^verbatim>\<open>~\<close> to the user's home directory and then resolves the result
  to an absolute path with \<^verbatim>\<open>/\<close> as the root. The definitions below follow that, filled in
  with the documented behaviour of the two functions on POSIX systems: \<^verbatim>\<open>untildify\<close>
  replaces a leading \<^verbatim>\<open>~\<close> that is the whole string or is followed by a slash or a backslash,
  provided the home directory is a non-empty string (the home directory is inserted as it
  is); \<^verbatim>\<open>Path.resolve\<close> prepends its
  arguments from the last to the first (and then the working directory) until the path
  is absolute, removes empty and \<^verbatim>\<open>.\<close> segments, lets \<^verbatim>\<open>..\<close> cancel the segment before it, and
  drops the trailing slash. The home directory and the working directory are parameters.
\<close>

definition untildify :: "string \<Rightarrow> string \<Rightarrow> string" where
  "untildify homeDirectory pathWithTilde =
     (if homeDirectory = [] then pathWithTilde
      else (case pathWithTilde of
              [] \<Rightarrow> []
            | ch # rest \<Rightarrow>
                if ch = CHR ''~'' \<and>
                   (case rest of [] \<Rightarrow> True | nxt # _ \<Rightarrow> nxt = CHR ''/'' \<or> nxt = CHR 0x5C)
                then homeDirectory @ rest
                else pathWithTilde))"

text \<open>The segments of a path, that is the pieces between its slashes.\<close>

fun splitSegments :: "string \<Rightarrow> string list" where
  "splitSegments [] = [[]]"
| "splitSegments (ch # rest) =
     (if ch = CHR ''/'' then [] # splitSegments rest
      else (case splitSegments rest of
              [] \<Rightarrow> [[ch]]
            | seg # segs \<Rightarrow> (ch # seg) # segs))"

fun joinSegments :: "string list \<Rightarrow> string" where
  "joinSegments [] = []"
| "joinSegments [seg] = seg"
| "joinSegments (seg # segs) = seg @ ''/'' @ joinSegments segs"

text \<open>
  One step of \<^verbatim>\<open>normalizeString\<close>: \<open>res\<close> holds the segments kept so far, \<open>seg\<close> is the
  segment that has just ended.
\<close>

definition normalizeSegment :: "bool \<Rightarrow> string list \<Rightarrow> string \<Rightarrow> string list" where
  "normalizeSegment allowAboveRoot res seg =
     (if seg = [] \<or> seg = ''.'' then res
      else if seg = ''..''
      then (if res \<noteq> [] \<and> last res \<noteq> ''..'' then butlast res
            else if allowAboveRoot then res @ [''..''] else res)
      else res @ [seg])"

definition normalizeString :: "string \<Rightarrow> bool \<Rightarrow> string" where
  "normalizeString p allowAboveRoot =
     joinSegments (foldl (normalizeSegment allowAboveRoot) [] (splitSegments p))"

text \<open>
  The loop of \<^verbatim>\<open>resolve\<close> over its arguments, last one first, the working directory after
  them: it stops at the first absolute one.
\<close>

fun resolveArguments :: "string list \<Rightarrow> string \<Rightarrow> string \<times> bool" where
  "resolveArguments [] resolvedPath = (resolvedPath, False)"
| "resolveArguments (p # ps) resolvedPath =
     (if length p = 0 then resolveArguments ps resolvedPath
      else if hd p = CHR ''/'' then (p @ ''/'' @ resolvedPath, True)
      else resolveArguments ps (p @ ''/'' @ resolvedPath))"

definition resolve :: "string \<Rightarrow> string list \<Rightarrow> string" where
  "resolve cwd args =
     (case resolveArguments (rev args @ [cwd]) [] of
        (resolvedPath, resolvedAbsolute) \<Rightarrow>
          (let normalized = normalizeString resolvedPath (\<not> resolvedAbsolute)
           in if resolvedAbsolute then CHR ''/'' # normalized
              else if length normalized > 0 then normalized else ''.''))"

definition resolvedPath :: "string \<Rightarrow> string \<Rightarrow> string \<Rightarrow> string" where
  "resolvedPath homeDirectory cwd p = resolve cwd [''/'', untildify homeDirectory p]"

text \<open>A segment that \<^verbatim>\<open>normalizeString\<close> keeps as it is.\<close>

definition plainSegment :: "string \<Rightarrow> bool" where
  "plainSegment seg = (seg \<noteq> [] \<and> seg \<noteq> ''.'' \<and> seg \<noteq> ''..'' \<and> CHR ''/'' \<notin> set seg)"

section \<open>Properties\<close>

lemmas handler_defs =
  validatePath_def repositoryTypeResolved_def validatePathReturned_def updatePath_def
  onPathChanged_def showFilePicker_def componentDidMount_def onTrustDirectory_def
  safeDirectoryResolved_def safeDirectoryRejected_def applyRepositoryType_def truthy_def
  constructor_def initialState_def run_def Let_def

subsection \<open>What a delivered repository type does to the state\<close>

lemma applyRepositoryType_fields:
  "applyRepositoryType p type s =
     (if p = path s
      then s\<lparr> isRepository := (type = Bare \<or> type = Regular),
              isRepositoryBare := (type = Bare),
              isRepositoryUnsafe := (case type of Unsafe u \<Rightarrow> True | _ \<Rightarrow> False),
              showNonGitRepositoryWarning := (type \<noteq> Regular),
              repositoryUnsafePath := (case type of Unsafe u \<Rightarrow> Some u | _ \<Rightarrow> None) \<rparr>
      else s)"
  by (cases type) (simp_all add: applyRepositoryType_def Let_def)

lemma applyRepositoryType_stale: "p \<noteq> path s \<Longrightarrow> applyRepositoryType p type s = s"
  by (simp add: applyRepositoryType_def Let_def)

lemma path_applyRepositoryType [simp]: "path (applyRepositoryType p type s) = path s"
  by (simp add: applyRepositoryType_def Let_def)

lemma isTrusting_applyRepositoryType [simp]:
  "isTrustingRepository (applyRepositoryType p type s) = isTrustingRepository s"
  by (simp add: applyRepositoryType_def Let_def)

text \<open>A sequence of \<^verbatim>\<open>updatePath\<close> calls leaves the path of the last one in the state.\<close>

lemma path_updatePath [simp]: "path (state (updatePath p c)) = p"
  by (simp add: updatePath_def validatePath_def)

lemma path_updatePaths: "path (state (updatePaths c ps)) = last (path (state c) # ps)"
proof (induction ps arbitrary: c)
  case Nil
  show ?case by (simp add: updatePaths_def)
next
  case (Cons p ps)
  have "updatePaths c (p # ps) = updatePaths (updatePath p c) ps"
    by (simp add: updatePaths_def)
  with Cons.IH [of "updatePath p c"] show ?case by simp
qed

text \<open>
  C1. When \<^verbatim>\<open>getRepositoryType(p)\<close> answers, the answer is written into the state exactly
  when \<open>p\<close> is the path the state holds at that moment: then the five validation fields
  take the values of the answer; otherwise the whole state is left as it is. This holds in
  every configuration; after any sequence of \<^verbatim>\<open>updatePath\<close> calls the path the state holds
  is the one of the last call, so an answer for any earlier, different path is dropped.
\<close>

theorem repositoryType_applied_iff_path_current:
  "state (repositoryTypeResolved p who type c) =
     (if p = path (state c)
      then (state c)\<lparr> isRepository := (type = Bare \<or> type = Regular),
                      isRepositoryBare := (type = Bare),
                      isRepositoryUnsafe := (case type of Unsafe u \<Rightarrow> True | _ \<Rightarrow> False),
                      showNonGitRepositoryWarning := (type \<noteq> Regular),
                      repositoryUnsafePath := (case type of Unsafe u \<Rightarrow> Some u | _ \<Rightarrow> None) \<rparr>
      else state c)
   \<and> path (state (updatePaths c0 ps)) = last (path (state c0) # ps)
   \<and> (p \<noteq> last (path (state c0) # ps) \<longrightarrow>
        state (repositoryTypeResolved p who type (updatePaths c0 ps)) = state (updatePaths c0 ps))"
proof (intro conjI impI)
  show "state (repositoryTypeResolved p who type c) =
     (if p = path (state c)
      then (state c)\<lparr> isRepository := (type = Bare \<or> type = Regular),
                      isRepositoryBare := (type = Bare),
                      isRepositoryUnsafe := (case type of Unsafe u \<Rightarrow> True | _ \<Rightarrow> False),
                      showNonGitRepositoryWarning := (type \<noteq> Regular),
                      repositoryUnsafePath := (case type of Unsafe u \<Rightarrow> Some u | _ \<Rightarrow> None) \<rparr>
      else state c)"
    by (simp add: repositoryTypeResolved_def applyRepositoryType_fields)
next
  show "path (state (updatePaths c0 ps)) = last (path (state c0) # ps)"
    by (rule path_updatePaths)
next
  assume "p \<noteq> last (path (state c0) # ps)"
  then have "p \<noteq> path (state (updatePaths c0 ps))"
    by (simp only: path_updatePaths not_False_eq_True)
  then show "state (repositoryTypeResolved p who type (updatePaths c0 ps)) = state (updatePaths c0 ps)"
    by (simp add: repositoryTypeResolved_def applyRepositoryType_stale)
qed

theorem repositoryType_applied_iff_path_current_witness:
  "state (repositoryTypeResolved ''/repo'' UpdatePath Regular
            (updatePaths (constructor None) [''/repo'', ''/other''])) =
     state (updatePaths (constructor None) [''/repo'', ''/other''])
   \<and> path (state (updatePaths (constructor None) [''/repo'', ''/other''])) = ''/other''
   \<and> isRepository (state (repositoryTypeResolved ''/other'' UpdatePath Regular
            (updatePaths (constructor None) [''/repo'', ''/other''])))"
  using repositoryType_applied_iff_path_current
    [of "''/repo''" UpdatePath Regular "updatePaths (constructor None) [''/repo'', ''/other'']"
        "constructor None" "[''/repo'', ''/other'']"]
    repositoryType_applied_iff_path_current
    [of "''/other''" UpdatePath Regular "updatePaths (constructor None) [''/repo'', ''/other'']"
        "constructor None" "[''/repo'', ''/other'']"]
  by (simp add: updatePaths_def constructor_def initialState_def)

subsection \<open>The OK button\<close>

lemma okButtonDisabled_updatePath: "okButtonDisabled (state (updatePath p c))"
  by (simp add: updatePath_def validatePath_def okButtonDisabled_def)

lemma okButtonDisabled_applied:
  "okButtonDisabled (applyRepositoryType (path s) type s) = (path s = [] \<or> type \<noteq> Regular)"
  by (cases type) (simp_all add: applyRepositoryType_fields okButtonDisabled_def)

lemma holdsRepositoryType_fields:
  "holdsRepositoryType type s =
     (isRepository s = (type = Bare \<or> type = Regular)
      \<and> isRepositoryBare s = (type = Bare)
      \<and> isRepositoryUnsafe s = (case type of Unsafe u \<Rightarrow> True | _ \<Rightarrow> False)
      \<and> showNonGitRepositoryWarning s = (type \<noteq> Regular)
      \<and> repositoryUnsafePath s = (case type of Unsafe u \<Rightarrow> Some u | _ \<Rightarrow> None))"
  by (cases s) (auto simp: holdsRepositoryType_def applyRepositoryType_fields)

lemma holdsRepositoryType_applied:
  "holdsRepositoryType type (applyRepositoryType (path s) type s)"
  by (cases type) (simp_all add: holdsRepositoryType_fields applyRepositoryType_fields)

lemma okButton_of_held_type:
  "holdsRepositoryType type s \<Longrightarrow>
   (\<not> okButtonDisabled s) = (path s \<noteq> [] \<and> type = Regular)"
  by (cases type) (auto simp: holdsRepositoryType_fields okButtonDisabled_def)

text \<open>Every handler keeps the state coherent, so every state of a run is.\<close>

lemma coherent_validatePath: "coherent (state c) \<Longrightarrow> coherent (state (validatePath p who c))"
  by (simp add: validatePath_def coherent_def)

lemma coherent_updatePath: "coherent (state (updatePath p c))"
  by (simp add: updatePath_def validatePath_def coherent_def)

lemma coherent_applied: "coherent s \<Longrightarrow> coherent (applyRepositoryType p type s)"
  by (cases type) (simp_all add: applyRepositoryType_fields coherent_def)

lemma coherent_step:
  assumes "coherent (state c)"
  shows "coherent (state (step c ev))"
proof (cases ev)
  case (PathChanged p)
  with assms show ?thesis by (simp add: onPathChanged_def coherent_updatePath)
next
  case (FilePicked picked)
  with assms show ?thesis
    by (cases picked) (simp_all add: showFilePicker_def coherent_updatePath)
next
  case Mounted
  with assms show ?thesis by (simp add: componentDidMount_def coherent_validatePath)
next
  case TrustClicked
  from assms
  have "coherent (state (c\<lparr> state := (state c)\<lparr> isTrustingRepository := True \<rparr> \<rparr>))"
    by (simp add: coherent_def)
  with TrustClicked show ?thesis
    by (simp add: onTrustDirectory_def Let_def coherent_validatePath)
next
  case (RepositoryTypeResolved p who type)
  with assms show ?thesis by (simp add: repositoryTypeResolved_def coherent_applied)
next
  case (ValidatePathReturned who)
  with assms show ?thesis by (simp add: validatePathReturned_def Let_def coherent_def)
next
  case (SafeDirectoryResolved u p)
  with assms show ?thesis by (simp add: safeDirectoryResolved_def coherent_validatePath)
next
  case (SafeDirectoryRejected u p)
  with assms show ?thesis by (simp add: safeDirectoryRejected_def)
qed

lemma coherent_run: "coherent (state c) \<Longrightarrow> coherent (state (run c evs))"
  unfolding run_def by (induction evs arbitrary: c) (simp_all add: coherent_step)

lemma coherent_constructor: "coherent (state (constructor propsPath))"
  by (simp add: constructor_def initialState_def coherent_def)

lemma okButton_of_coherent:
  "coherent s \<Longrightarrow>
   (\<not> okButtonDisabled s) = (path s \<noteq> [] \<and> holdsRepositoryType Regular s)"
  by (auto simp: coherent_def okButtonDisabled_def holdsRepositoryType_fields split: if_splits)

text \<open>
  C2. The OK button is enabled exactly when the path is not empty and the repository type
  the state holds is the regular one (the spec's \<open>Valid\<close>).
  \<^item> In any state that holds a repository type, the button is enabled if and only if the
    path is not empty and that type is \<open>Regular\<close>.
  \<^item> In every state of every run of the component, the button is enabled if and only if
    the path is not empty and the state holds \<open>Regular\<close>.
  \<^item> After the answer for the current path has been written, the state holds it, and the
    button is enabled if and only if the path is not empty and the answer is \<open>Regular\<close>;
    for \<open>Missing\<close>, \<open>Unsafe\<close> and \<open>Bare\<close> it is disabled.
  \<^item> Right after \<^verbatim>\<open>updatePath\<close>, while the answer is outstanding (the spec's \<open>Pending\<close>) or
    the path is empty (the spec's \<open>None\<close>), and in the state the component starts with, it
    is disabled.
\<close>

theorem okButton_enabled_iff_path_nonempty_and_regular:
  "(holdsRepositoryType type s \<longrightarrow>
      (\<not> okButtonDisabled s) = (path s \<noteq> [] \<and> type = Regular))
   \<and> (\<not> okButtonDisabled (state (run (constructor propsPath) evs))) =
       (path (state (run (constructor propsPath) evs)) \<noteq> []
        \<and> holdsRepositoryType Regular (state (run (constructor propsPath) evs)))
   \<and> holdsRepositoryType type (state (repositoryTypeResolved (path (state c)) who type c))
   \<and> (\<not> okButtonDisabled (state (repositoryTypeResolved (path (state c)) who type c))) =
       (path (state c) \<noteq> [] \<and> type = Regular)
   \<and> okButtonDisabled (state (repositoryTypeResolved (path (state c)) who Missing c))
   \<and> okButtonDisabled (state (repositoryTypeResolved (path (state c)) who (Unsafe u) c))
   \<and> okButtonDisabled (state (repositoryTypeResolved (path (state c)) who Bare c))
   \<and> okButtonDisabled (state (updatePath p c))
   \<and> okButtonDisabled (state (constructor propsPath))"
proof (intro conjI impI)
  assume "holdsRepositoryType type s"
  then show "(\<not> okButtonDisabled s) = (path s \<noteq> [] \<and> type = Regular)"
    by (rule okButton_of_held_type)
next
  have "coherent (state (run (constructor propsPath) evs))"
    by (intro coherent_run coherent_constructor)
  then show "(\<not> okButtonDisabled (state (run (constructor propsPath) evs))) =
       (path (state (run (constructor propsPath) evs)) \<noteq> []
        \<and> holdsRepositoryType Regular (state (run (constructor propsPath) evs)))"
    by (rule okButton_of_coherent)
next
  show "holdsRepositoryType type (state (repositoryTypeResolved (path (state c)) who type c))"
    by (simp add: repositoryTypeResolved_def holdsRepositoryType_applied)
  show "(\<not> okButtonDisabled (state (repositoryTypeResolved (path (state c)) who type c))) =
     (path (state c) \<noteq> [] \<and> type = Regular)"
    by (simp add: repositoryTypeResolved_def okButtonDisabled_applied)
  show "okButtonDisabled (state (repositoryTypeResolved (path (state c)) who Missing c))"
    by (simp add: repositoryTypeResolved_def okButtonDisabled_applied)
  show "okButtonDisabled (state (repositoryTypeResolved (path (state c)) who (Unsafe u) c))"
    by (simp add: repositoryTypeResolved_def okButtonDisabled_applied)
  show "okButtonDisabled (state (repositoryTypeResolved (path (state c)) who Bare c))"
    by (simp add: repositoryTypeResolved_def okButtonDisabled_applied)
  show "okButtonDisabled (state (updatePath p c))"
    by (rule okButtonDisabled_updatePath)
  show "okButtonDisabled (state (constructor propsPath))"
    by (simp add: constructor_def initialState_def okButtonDisabled_def)
qed

theorem okButton_enabled_iff_path_nonempty_and_regular_witness:
  "\<not> okButtonDisabled (state (run (constructor None)
        [PathChanged ''/repo'', RepositoryTypeResolved ''/repo'' UpdatePath Regular]))
   \<and> holdsRepositoryType Regular (state (run (constructor None)
        [PathChanged ''/repo'', RepositoryTypeResolved ''/repo'' UpdatePath Regular]))
   \<and> okButtonDisabled (state (run (constructor None)
        [PathChanged ''/repo'', RepositoryTypeResolved ''/repo'' UpdatePath Bare]))
   \<and> okButtonDisabled (state (run (constructor None) [PathChanged ''/repo'']))"
proof -
  have regular: "holdsRepositoryType Regular (state (run (constructor None)
        [PathChanged ''/repo'', RepositoryTypeResolved ''/repo'' UpdatePath Regular]))"
    by (simp add: handler_defs holdsRepositoryType_def)
  have bare: "holdsRepositoryType Bare (state (run (constructor None)
        [PathChanged ''/repo'', RepositoryTypeResolved ''/repo'' UpdatePath Bare]))"
    by (simp add: handler_defs holdsRepositoryType_def)
  have cur: "path (state (run (constructor None)
        [PathChanged ''/repo'', RepositoryTypeResolved ''/repo'' UpdatePath Regular])) = ''/repo''"
       "path (state (run (constructor None)
        [PathChanged ''/repo'', RepositoryTypeResolved ''/repo'' UpdatePath Bare])) = ''/repo''"
    by (simp_all add: handler_defs)
  have pend: "run (constructor None) [PathChanged ''/repo''] = updatePath ''/repo'' (constructor None)"
    by (simp add: run_def onPathChanged_def constructor_def initialState_def)
  show ?thesis
    using regular bare cur
      okButton_enabled_iff_path_nonempty_and_regular
        [where type = Regular and s = "state (run (constructor None)
          [PathChanged ''/repo'', RepositoryTypeResolved ''/repo'' UpdatePath Regular])"
          and p = "''/repo''" and c = "constructor None"]
      okButton_enabled_iff_path_nonempty_and_regular
        [where type = Bare and s = "state (run (constructor None)
          [PathChanged ''/repo'', RepositoryTypeResolved ''/repo'' UpdatePath Bare])"]
    by (simp add: pend)
qed

subsection \<open>Path edits\<close>

text \<open>
  C6, as stated, fails: for a path that is not empty \<^verbatim>\<open>updatePath\<close> does not put the
  validation fields into a state of their own. In the run below \<^verbatim>\<open>/repo\<close> has been found
  unsafe and the path is then changed to \<^verbatim>\<open>/other\<close>: the state still holds the unsafe
  answer, and the unsafe warning with its link is still rendered.
\<close>

theorem updatePath_sets_pending_counterexample:
  "state (run (constructor None)
      [PathChanged ''/repo'',
       RepositoryTypeResolved ''/repo'' UpdatePath (Unsafe ''/owner''),
       ValidatePathReturned UpdatePath,
       PathChanged ''/other'']) =
     \<lparr> path = ''/other'', isRepository = False, showNonGitRepositoryWarning = True,
       isRepositoryBare = False, isRepositoryUnsafe = True,
       repositoryUnsafePath = Some ''/owner'', isTrustingRepository = False \<rparr>
   \<and> holdsRepositoryType (Unsafe ''/owner'') (state (run (constructor None)
      [PathChanged ''/repo'',
       RepositoryTypeResolved ''/repo'' UpdatePath (Unsafe ''/owner''),
       ValidatePathReturned UpdatePath,
       PathChanged ''/other'']))
   \<and> renderWarning False (state (run (constructor None)
      [PathChanged ''/repo'',
       RepositoryTypeResolved ''/repo'' UpdatePath (Unsafe ''/owner''),
       ValidatePathReturned UpdatePath,
       PathChanged ''/other''])) = UnsafeRepositoryWarning ''/owner'' True"
  by (simp add: handler_defs holdsRepositoryType_def renderWarning_def)

text \<open>
  C6, amended. \<^verbatim>\<open>updatePath(p)\<close> stores \<open>p\<close> as the path and switches \<open>isRepository\<close> off
  at once, so the OK button is disabled.
  \<^item> For the empty path the bare flag and the warning flag are switched off as well and
    nothing else changes; \<^verbatim>\<open>getRepositoryType\<close> is not called and no warning is rendered.
  \<^item> For any other path \<^verbatim>\<open>getRepositoryType(p)\<close> is called once and its answer is awaited;
    nothing but the path and \<open>isRepository\<close> changes. The warning flag, the bare flag, the
    unsafe flag and the unsafe path keep their values until the answer arrives: a state
    that held a type without a repository (missing or unsafe) holds it afterwards.
\<close>

theorem updatePath_stores_path_and_resets:
  "path (state (updatePath p c)) = p
   \<and> \<not> isRepository (state (updatePath p c))
   \<and> okButtonDisabled (state (updatePath p c))
   \<and> (if p = []
       then \<not> isRepositoryBare (state (updatePath p c))
            \<and> \<not> showNonGitRepositoryWarning (state (updatePath p c))
            \<and> state (updatePath p c) =
                (state c)\<lparr> path := [], isRepository := False, isRepositoryBare := False,
                           showNonGitRepositoryWarning := False \<rparr>
            \<and> renderWarning win32 (state (updatePath p c)) = NoWarning
            \<and> calls (updatePath p c) = calls c
            \<and> pending (updatePath p c) = pending c @ [AwaitValidatePath UpdatePath]
       else calls (updatePath p c) = calls c @ [GetRepositoryType p]
            \<and> pending (updatePath p c) = pending c @ [AwaitRepositoryType p UpdatePath]
            \<and> state (updatePath p c) = (state c)\<lparr> path := p, isRepository := False \<rparr>)
   \<and> (if p = [] \<or> isRepository (state c) then True
       else holdsRepositoryType type (state (updatePath p c)) =
            holdsRepositoryType type (state c))"
  by (simp add: updatePath_def validatePath_def okButtonDisabled_def renderWarning_def
      holdsRepositoryType_fields)

theorem updatePath_stores_path_and_resets_witness:
  "path (state (updatePath [] (updatePath ''/repo'' (constructor None)))) = []
   \<and> renderWarning False (state (updatePath [] (updatePath ''/repo'' (constructor None)))) = NoWarning
   \<and> okButtonDisabled (state (updatePath [] (updatePath ''/repo'' (constructor None))))
   \<and> calls (updatePath [] (updatePath ''/repo'' (constructor None))) = [GetRepositoryType ''/repo'']
   \<and> calls (updatePath ''/other'' (updatePath ''/repo'' (constructor None))) =
       [GetRepositoryType ''/repo'', GetRepositoryType ''/other'']
   \<and> holdsRepositoryType (Unsafe ''/owner'') (state (updatePath ''/other''
        (repositoryTypeResolved ''/repo'' UpdatePath (Unsafe ''/owner'')
           (updatePath ''/repo'' (constructor None)))))"
proof -
  have held: "holdsRepositoryType (Unsafe ''/owner'')
      (state (repositoryTypeResolved ''/repo'' UpdatePath (Unsafe ''/owner'')
         (updatePath ''/repo'' (constructor None))))"
    by (simp add: handler_defs holdsRepositoryType_def)
  have norepo: "\<not> isRepository
      (state (repositoryTypeResolved ''/repo'' UpdatePath (Unsafe ''/owner'')
         (updatePath ''/repo'' (constructor None))))"
    by (simp add: handler_defs)
  have "if ''/other'' = [] \<or> isRepository
        (state (repositoryTypeResolved ''/repo'' UpdatePath (Unsafe ''/owner'')
           (updatePath ''/repo'' (constructor None))))
      then True
      else holdsRepositoryType (Unsafe ''/owner'') (state (updatePath ''/other''
             (repositoryTypeResolved ''/repo'' UpdatePath (Unsafe ''/owner'')
                (updatePath ''/repo'' (constructor None))))) =
           holdsRepositoryType (Unsafe ''/owner'')
             (state (repositoryTypeResolved ''/repo'' UpdatePath (Unsafe ''/owner'')
                (updatePath ''/repo'' (constructor None))))"
    by (rule updatePath_stores_path_and_resets
        [of "''/other''" "repositoryTypeResolved ''/repo'' UpdatePath (Unsafe ''/owner'')
           (updatePath ''/repo'' (constructor None))" False "Unsafe ''/owner''",
         THEN conjunct2, THEN conjunct2, THEN conjunct2, THEN conjunct2])
  with held norepo
  have "holdsRepositoryType (Unsafe ''/owner'') (state (updatePath ''/other''
        (repositoryTypeResolved ''/repo'' UpdatePath (Unsafe ''/owner'')
           (updatePath ''/repo'' (constructor None)))))"
    by simp
  moreover
  have "path (state (updatePath [] (updatePath ''/repo'' (constructor None)))) = []
   \<and> renderWarning False (state (updatePath [] (updatePath ''/repo'' (constructor None)))) = NoWarning
   \<and> okButtonDisabled (state (updatePath [] (updatePath ''/repo'' (constructor None))))
   \<and> calls (updatePath [] (updatePath ''/repo'' (constructor None))) = [GetRepositoryType ''/repo'']
   \<and> calls (updatePath ''/other'' (updatePath ''/repo'' (constructor None))) =
       [GetRepositoryType ''/repo'', GetRepositoryType ''/other'']"
    by (simp add: handler_defs renderWarning_def okButtonDisabled_def)
  ultimately show ?thesis by blast
qed

text \<open>
  C8. \<^verbatim>\<open>validatePath\<close> on the empty path switches off \<open>isRepository\<close>, \<open>isRepositoryBare\<close> and
  \<open>showNonGitRepositoryWarning\<close> and touches no other field: \<open>isRepositoryUnsafe\<close> and
  \<open>repositoryUnsafePath\<close> keep their values, also through \<^verbatim>\<open>updatePath('')\<close>.
\<close>

theorem validatePath_empty_keeps_unsafe_fields:
  "state (validatePath [] who c) =
     (state c)\<lparr> isRepository := False, isRepositoryBare := False,
                showNonGitRepositoryWarning := False \<rparr>
   \<and> isRepositoryUnsafe (state (validatePath [] who c)) = isRepositoryUnsafe (state c)
   \<and> repositoryUnsafePath (state (validatePath [] who c)) = repositoryUnsafePath (state c)
   \<and> calls (validatePath [] who c) = calls c
   \<and> isRepositoryUnsafe (state (updatePath [] c)) = isRepositoryUnsafe (state c)
   \<and> repositoryUnsafePath (state (updatePath [] c)) = repositoryUnsafePath (state c)"
  by (simp add: updatePath_def validatePath_def)

theorem validatePath_empty_keeps_unsafe_fields_witness:
  "isRepositoryUnsafe (state (updatePath []
      (repositoryTypeResolved ''/repo'' UpdatePath (Unsafe ''/owner'')
         (updatePath ''/repo'' (constructor None)))))
   \<and> repositoryUnsafePath (state (updatePath []
      (repositoryTypeResolved ''/repo'' UpdatePath (Unsafe ''/owner'')
         (updatePath ''/repo'' (constructor None))))) = Some ''/owner''
   \<and> path (state (updatePath []
      (repositoryTypeResolved ''/repo'' UpdatePath (Unsafe ''/owner'')
         (updatePath ''/repo'' (constructor None))))) = []"
  using validatePath_empty_keeps_unsafe_fields
    [of UpdatePath "repositoryTypeResolved ''/repo'' UpdatePath (Unsafe ''/owner'')
         (updatePath ''/repo'' (constructor None))"]
  by (simp add: repositoryTypeResolved_def applyRepositoryType_fields)

text \<open>
  C9. \<^verbatim>\<open>onPathChanged\<close> with the path the state already holds changes nothing: the
  configuration (state, suspended awaits, calls made) is the same afterwards. With any
  other path it is \<^verbatim>\<open>updatePath\<close>, which stores the new path.
\<close>

theorem onPathChanged_same_path_noop:
  "onPathChanged (path (state c)) c = c
   \<and> onPathChanged p c = (if p = path (state c) then c else updatePath p c)
   \<and> (p \<noteq> path (state c) \<longrightarrow> onPathChanged p c \<noteq> c)"
proof (intro conjI impI)
  show "onPathChanged (path (state c)) c = c"
    by (simp add: onPathChanged_def)
  show "onPathChanged p c = (if p = path (state c) then c else updatePath p c)"
    by (auto simp: onPathChanged_def)
next
  assume neq: "p \<noteq> path (state c)"
  have "path (state (onPathChanged p c)) = p"
    using neq by (auto simp: onPathChanged_def)
  with neq show "onPathChanged p c \<noteq> c" by auto
qed

theorem onPathChanged_same_path_noop_witness:
  "onPathChanged ''/repo'' (updatePath ''/repo'' (constructor None)) =
     updatePath ''/repo'' (constructor None)
   \<and> onPathChanged ''/other'' (updatePath ''/repo'' (constructor None)) \<noteq>
     updatePath ''/repo'' (constructor None)"
proof -
  have cur: "path (state (updatePath ''/repo'' (constructor None))) = ''/repo''"
    by simp
  have same: "onPathChanged (path (state (updatePath ''/repo'' (constructor None))))
                (updatePath ''/repo'' (constructor None)) = updatePath ''/repo'' (constructor None)"
    and other: "''/other'' \<noteq> path (state (updatePath ''/repo'' (constructor None))) \<longrightarrow>
                onPathChanged ''/other'' (updatePath ''/repo'' (constructor None)) \<noteq>
                updatePath ''/repo'' (constructor None)"
    using onPathChanged_same_path_noop [of "updatePath ''/repo'' (constructor None)" "''/other''"]
    by blast+
  from same have "onPathChanged ''/repo'' (updatePath ''/repo'' (constructor None)) =
      updatePath ''/repo'' (constructor None)"
    by (simp only: cur)
  moreover from other have "onPathChanged ''/other'' (updatePath ''/repo'' (constructor None)) \<noteq>
      updatePath ''/repo'' (constructor None)"
    by (simp only: cur) simp
  ultimately show ?thesis by blast
qed

subsection \<open>Trusting a directory\<close>


lemma isTrusting_validatePath [simp]:
  "isTrustingRepository (state (validatePath p who c)) = isTrustingRepository (state c)"
  by (simp add: validatePath_def)

lemma isTrusting_validatePathReturned [simp]:
  "isTrustingRepository (state (validatePathReturned OnTrustDirectory c)) = False"
  by (simp add: validatePathReturned_def Let_def)

lemma isTrusting_repositoryTypeResolved [simp]:
  "isTrustingRepository (state (repositoryTypeResolved p who type c)) =
     isTrustingRepository (state c)"
  by (simp add: repositoryTypeResolved_def)

text \<open>
  C10. When \<^verbatim>\<open>onTrustDirectory\<close> runs while \<open>repositoryUnsafePath\<close> is undefined,
  \<^verbatim>\<open>addSafeDirectory\<close> is not called; \<open>isTrustingRepository\<close> is switched on, \<^verbatim>\<open>validatePath\<close>
  runs at once on the path read from the state (calling \<^verbatim>\<open>getRepositoryType\<close> for it unless
  it is empty), and once \<^verbatim>\<open>validatePath\<close> has returned \<open>isTrustingRepository\<close> is switched off
  again. Nothing is rejected.
\<close>

theorem onTrustDirectory_without_unsafe_path:
  assumes "repositoryUnsafePath (state c) = None"
  shows "onTrustDirectory c =
           validatePath (path (state c)) OnTrustDirectory
             (c\<lparr> state := (state c)\<lparr> isTrustingRepository := True \<rparr> \<rparr>)
   \<and> calls (onTrustDirectory c) =
       calls c @ (if path (state c) = [] then [] else [GetRepositoryType (path (state c))])
   \<and> pending (onTrustDirectory c) =
       pending c @ [if path (state c) = [] then AwaitValidatePath OnTrustDirectory
                    else AwaitRepositoryType (path (state c)) OnTrustDirectory]
   \<and> isTrustingRepository (state (onTrustDirectory c))
   \<and> \<not> isTrustingRepository (state (validatePathReturned OnTrustDirectory
          (repositoryTypeResolved (path (state c)) OnTrustDirectory type (onTrustDirectory c))))
   \<and> \<not> isTrustingRepository (state (validatePathReturned OnTrustDirectory (onTrustDirectory c)))
   \<and> unhandledRejections (onTrustDirectory c) = unhandledRejections c"
  using assms by (simp add: onTrustDirectory_def truthy_def Let_def validatePath_def)

theorem onTrustDirectory_without_unsafe_path_witness:
  "repositoryUnsafePath (state (constructor (Some ''/repo''))) = None
   \<and> calls (onTrustDirectory (constructor (Some ''/repo''))) = [GetRepositoryType ''/repo'']
   \<and> pending (onTrustDirectory (constructor (Some ''/repo''))) =
       [AwaitRepositoryType ''/repo'' OnTrustDirectory]
   \<and> isTrustingRepository (state (onTrustDirectory (constructor (Some ''/repo''))))
   \<and> \<not> isTrustingRepository (state (validatePathReturned OnTrustDirectory
          (repositoryTypeResolved ''/repo'' OnTrustDirectory Missing
             (onTrustDirectory (constructor (Some ''/repo''))))))"
proof -
  have none: "repositoryUnsafePath (state (constructor (Some ''/repo''))) = None"
    by (simp add: constructor_def initialState_def)
  show ?thesis
    using none onTrustDirectory_without_unsafe_path [OF none, of Missing]
    by (simp add: constructor_def initialState_def validatePath_def)
qed




text \<open>
  C4, as stated, fails: when \<^verbatim>\<open>addSafeDirectory\<close> fails, \<open>isTrustingRepository\<close> is not
  switched off. In the run below \<^verbatim>\<open>/repo\<close> has been found unsafe, the link is clicked and
  \<^verbatim>\<open>addSafeDirectory\<close> fails: the flag is still on, nothing is suspended that would switch
  it off, and the rejection has left \<^verbatim>\<open>onTrustDirectory\<close>.
\<close>

theorem isTrusting_reset_when_trust_fails_counterexample:
  "isTrustingRepository (state (run (constructor None)
      [FilePicked (Some ''/repo''),
       RepositoryTypeResolved ''/repo'' UpdatePath (Unsafe ''/repo''),
       ValidatePathReturned UpdatePath,
       TrustClicked,
       SafeDirectoryRejected ''/repo'' ''/repo'']))
   \<and> pending (run (constructor None)
      [FilePicked (Some ''/repo''),
       RepositoryTypeResolved ''/repo'' UpdatePath (Unsafe ''/repo''),
       ValidatePathReturned UpdatePath,
       TrustClicked,
       SafeDirectoryRejected ''/repo'' ''/repo'']) = []
   \<and> unhandledRejections (run (constructor None)
      [FilePicked (Some ''/repo''),
       RepositoryTypeResolved ''/repo'' UpdatePath (Unsafe ''/repo''),
       ValidatePathReturned UpdatePath,
       TrustClicked,
       SafeDirectoryRejected ''/repo'' ''/repo'']) = 1"
  by (simp add: handler_defs)

text \<open>
  C4, amended. When \<^verbatim>\<open>addSafeDirectory\<close> fails, the path and the five validation fields
  are left as they are (an unsafe repository is still shown as unsafe, with the OK button as
  before), and no call is made: the path is not validated again. The failure is not handled
  inside \<^verbatim>\<open>onTrustDirectory\<close>; its promise is rejected.
\<close>

theorem safeDirectoryRejected_keeps_validation_fields:
  "path (state (safeDirectoryRejected u p c)) = path (state c)
   \<and> isRepository (state (safeDirectoryRejected u p c)) = isRepository (state c)
   \<and> isRepositoryBare (state (safeDirectoryRejected u p c)) = isRepositoryBare (state c)
   \<and> isRepositoryUnsafe (state (safeDirectoryRejected u p c)) = isRepositoryUnsafe (state c)
   \<and> repositoryUnsafePath (state (safeDirectoryRejected u p c)) = repositoryUnsafePath (state c)
   \<and> showNonGitRepositoryWarning (state (safeDirectoryRejected u p c)) =
       showNonGitRepositoryWarning (state c)
   \<and> renderWarning win32 (state (safeDirectoryRejected u p c)) = renderWarning win32 (state c)
   \<and> okButtonDisabled (state (safeDirectoryRejected u p c)) = okButtonDisabled (state c)
   \<and> calls (safeDirectoryRejected u p c) = calls c
   \<and> pending (safeDirectoryRejected u p c) = remove1 (AwaitSafeDirectory u p) (pending c)
   \<and> unhandledRejections (safeDirectoryRejected u p c) = Suc (unhandledRejections c)"
  by (simp add: safeDirectoryRejected_def)

theorem safeDirectoryRejected_keeps_validation_fields_witness:
  "renderWarning False (state (safeDirectoryRejected ''/repo'' ''/repo''
      (run (constructor None)
        [FilePicked (Some ''/repo''),
         RepositoryTypeResolved ''/repo'' UpdatePath (Unsafe ''/repo''),
         ValidatePathReturned UpdatePath,
         TrustClicked]))) = UnsafeRepositoryWarning ''/repo'' False
   \<and> calls (safeDirectoryRejected ''/repo'' ''/repo''
      (run (constructor None)
        [FilePicked (Some ''/repo''),
         RepositoryTypeResolved ''/repo'' UpdatePath (Unsafe ''/repo''),
         ValidatePathReturned UpdatePath,
         TrustClicked])) = [GetRepositoryType ''/repo'', AddSafeDirectory ''/repo'']"
  using safeDirectoryRejected_keeps_validation_fields
    [of "''/repo''" "''/repo''" "run (constructor None)
        [FilePicked (Some ''/repo''),
         RepositoryTypeResolved ''/repo'' UpdatePath (Unsafe ''/repo''),
         ValidatePathReturned UpdatePath,
         TrustClicked]" False]
  by (simp add: handler_defs renderWarning_def)

text \<open>
  C5, as stated, fails: \<open>isTrustingRepository\<close> is still on after the path has been
  submitted for validation again. In the run below \<^verbatim>\<open>addSafeDirectory\<close> has completed and
  \<^verbatim>\<open>getRepositoryType('/repo')\<close> has been called a second time; its answer is outstanding
  and the flag is on.
\<close>

theorem isTrusting_off_once_revalidation_issued_counterexample:
  "isTrustingRepository (state (run (constructor None)
      [FilePicked (Some ''/repo''),
       RepositoryTypeResolved ''/repo'' UpdatePath (Unsafe ''/repo''),
       ValidatePathReturned UpdatePath,
       TrustClicked,
       SafeDirectoryResolved ''/repo'' ''/repo'']))
   \<and> calls (run (constructor None)
      [FilePicked (Some ''/repo''),
       RepositoryTypeResolved ''/repo'' UpdatePath (Unsafe ''/repo''),
       ValidatePathReturned UpdatePath,
       TrustClicked,
       SafeDirectoryResolved ''/repo'' ''/repo'']) =
     [GetRepositoryType ''/repo'', AddSafeDirectory ''/repo'', GetRepositoryType ''/repo'']
   \<and> pending (run (constructor None)
      [FilePicked (Some ''/repo''),
       RepositoryTypeResolved ''/repo'' UpdatePath (Unsafe ''/repo''),
       ValidatePathReturned UpdatePath,
       TrustClicked,
       SafeDirectoryResolved ''/repo'' ''/repo'']) =
     [AwaitRepositoryType ''/repo'' OnTrustDirectory]"
  by (simp add: handler_defs)

lemma isTrusting_step:
  "isTrustingRepository (state (step c ev)) =
     (if ev = TrustClicked then True
      else if ev = ValidatePathReturned OnTrustDirectory
              \<and> AwaitValidatePath OnTrustDirectory \<in> set (pending c) then False
      else isTrustingRepository (state c))"
proof (cases ev)
  case (PathChanged p)
  then show ?thesis by (simp add: onPathChanged_def updatePath_def)
next
  case (FilePicked picked)
  then show ?thesis by (cases picked) (simp_all add: showFilePicker_def updatePath_def)
next
  case Mounted
  then show ?thesis by (simp add: componentDidMount_def)
next
  case TrustClicked
  then show ?thesis by (simp add: onTrustDirectory_def Let_def)
next
  case (RepositoryTypeResolved p who type)
  then show ?thesis by simp
next
  case (ValidatePathReturned who)
  then show ?thesis by (cases who) (simp_all add: validatePathReturned_def Let_def)
next
  case (SafeDirectoryResolved u p)
  then show ?thesis by (simp add: safeDirectoryResolved_def)
next
  case (SafeDirectoryRejected u p)
  then show ?thesis by (simp add: safeDirectoryRejected_def)
qed

lemma filter_remove1_other: "\<not> P x \<Longrightarrow> filter P (remove1 x xs) = filter P xs"
  by (induction xs) auto

lemma length_filter_remove1:
  "x \<in> set xs \<Longrightarrow> P x \<Longrightarrow> Suc (length (filter P (remove1 x xs))) = length (filter P xs)"
  by (induction xs) auto

lemma only_trust_task:
  assumes "x \<in> set xs" and "P x" and "length (filter P xs) \<le> 1"
  shows "filter P (remove1 x xs) = []" and "filter P xs \<noteq> []"
proof -
  have "Suc (length (filter P (remove1 x xs))) = length (filter P xs)"
    using assms(1,2) by (rule length_filter_remove1)
  with assms(3) have "length (filter P (remove1 x xs)) = 0" by arith
  then show "filter P (remove1 x xs) = []" by simp
  from assms(1,2) show "filter P xs \<noteq> []" by (auto simp: filter_empty_conv)
qed

lemma trust_validatePath:
  "filter ofTrustFlow (pending (validatePath p who c)) =
     filter ofTrustFlow (pending c) @ (if who = OnTrustDirectory then
        [if p = [] then AwaitValidatePath who else AwaitRepositoryType p who] else [])"
  by (simp add: validatePath_def)

lemma oneTrustFlow_step:
  assumes "oneTrustFlow c" and "ev = TrustClicked \<Longrightarrow> \<not> trustInFlight c"
  shows "oneTrustFlow (step c ev)"
proof (cases ev)
  case (PathChanged p)
  with assms(1) show ?thesis
    by (simp add: onPathChanged_def updatePath_def oneTrustFlow_def trustInFlight_def
        trust_validatePath)
next
  case (FilePicked picked)
  with assms(1) show ?thesis
    by (cases picked)
       (simp_all add: showFilePicker_def updatePath_def oneTrustFlow_def trustInFlight_def
        trust_validatePath)
next
  case Mounted
  with assms(1) show ?thesis
    by (simp add: componentDidMount_def oneTrustFlow_def trustInFlight_def trust_validatePath)
next
  case TrustClicked
  with assms(2) have "filter ofTrustFlow (pending c) = []"
    by (simp add: trustInFlight_def)
  with TrustClicked show ?thesis
    by (simp add: onTrustDirectory_def Let_def oneTrustFlow_def trustInFlight_def
        trust_validatePath)
next
  case (RepositoryTypeResolved p who type)
  show ?thesis
  proof (cases "AwaitRepositoryType p who \<in> set (pending c)")
    case False
    with assms(1) RepositoryTypeResolved show ?thesis by simp
  next
    case True
    show ?thesis
    proof (cases "who = OnTrustDirectory")
      case False
      with assms(1) RepositoryTypeResolved True show ?thesis
        by (simp add: repositoryTypeResolved_def oneTrustFlow_def trustInFlight_def
            filter_remove1_other)
    next
      case who: True
      from assms(1) have le: "length (filter ofTrustFlow (pending c)) \<le> 1"
        by (simp add: oneTrustFlow_def)
      from True who le
      have "filter ofTrustFlow (remove1 (AwaitRepositoryType p who) (pending c)) = []"
        and "filter ofTrustFlow (pending c) \<noteq> []"
        by (simp_all add: only_trust_task)
      with assms(1) have "filter ofTrustFlow (remove1 (AwaitRepositoryType p who) (pending c)) = []"
        and "isTrustingRepository (state c)"
        by (simp_all add: oneTrustFlow_def trustInFlight_def)
      with RepositoryTypeResolved True who show ?thesis
        by (simp add: repositoryTypeResolved_def oneTrustFlow_def trustInFlight_def)
    qed
  qed
next
  case (ValidatePathReturned who)
  show ?thesis
  proof (cases "AwaitValidatePath who \<in> set (pending c)")
    case False
    with assms(1) ValidatePathReturned show ?thesis by simp
  next
    case True
    show ?thesis
    proof (cases "who = OnTrustDirectory")
      case False
      with assms(1) ValidatePathReturned True show ?thesis
        by (simp add: validatePathReturned_def Let_def oneTrustFlow_def trustInFlight_def
            filter_remove1_other)
    next
      case who: True
      from assms(1) have le: "length (filter ofTrustFlow (pending c)) \<le> 1"
        by (simp add: oneTrustFlow_def)
      from True who le
      have "filter ofTrustFlow (remove1 (AwaitValidatePath who) (pending c)) = []"
        by (simp add: only_trust_task)
      with ValidatePathReturned True who show ?thesis
        by (simp add: validatePathReturned_def Let_def oneTrustFlow_def trustInFlight_def)
    qed
  qed
next
  case (SafeDirectoryResolved u p)
  show ?thesis
  proof (cases "AwaitSafeDirectory u p \<in> set (pending c)")
    case False
    with assms(1) SafeDirectoryResolved show ?thesis by simp
  next
    case True
    moreover from assms(1) have "length (filter ofTrustFlow (pending c)) \<le> 1"
      by (simp add: oneTrustFlow_def)
    ultimately
    have "filter ofTrustFlow (remove1 (AwaitSafeDirectory u p) (pending c)) = []"
      and "filter ofTrustFlow (pending c) \<noteq> []"
      by (simp_all add: only_trust_task)
    with assms(1) have "filter ofTrustFlow (remove1 (AwaitSafeDirectory u p) (pending c)) = []"
      and "isTrustingRepository (state c)"
      by (simp_all add: oneTrustFlow_def trustInFlight_def)
    with SafeDirectoryResolved True show ?thesis
      by (simp add: safeDirectoryResolved_def oneTrustFlow_def trustInFlight_def
          trust_validatePath)
  qed
next
  case (SafeDirectoryRejected u p)
  show ?thesis
  proof (cases "AwaitSafeDirectory u p \<in> set (pending c)")
    case False
    with assms(1) SafeDirectoryRejected show ?thesis by simp
  next
    case True
    moreover from assms(1) have "length (filter ofTrustFlow (pending c)) \<le> 1"
      by (simp add: oneTrustFlow_def)
    ultimately
    have "filter ofTrustFlow (remove1 (AwaitSafeDirectory u p) (pending c)) = []"
      by (simp add: only_trust_task)
    with SafeDirectoryRejected True show ?thesis
      by (simp add: safeDirectoryRejected_def oneTrustFlow_def trustInFlight_def)
  qed
qed

lemma oneTrustFlow_run:
  "oneTrustFlow c \<Longrightarrow> trustFlowsApart c evs \<Longrightarrow> oneTrustFlow (run c evs)"
proof (induction evs arbitrary: c)
  case Nil
  then show ?case by (simp add: run_def)
next
  case (Cons ev evs)
  from Cons.prems have "oneTrustFlow (step c ev)"
    by (intro oneTrustFlow_step) (auto split: if_splits)
  moreover from Cons.prems have "trustFlowsApart (step c ev) evs" by simp
  ultimately have "oneTrustFlow (run (step c ev) evs)" by (rule Cons.IH)
  then show ?case by (simp add: run_def)
qed

lemma oneTrustFlow_constructor: "oneTrustFlow (constructor propsPath)"
  by (simp add: oneTrustFlow_def trustInFlight_def constructor_def)


lemma validatePathReturn_ready:
  assumes "AwaitValidatePath OnTrustDirectory \<in> set (pending (step c ev))"
  shows "AwaitValidatePath OnTrustDirectory \<in> set (pending c)
     \<or> (\<exists>p type. ev = RepositoryTypeResolved p OnTrustDirectory type
           \<and> AwaitRepositoryType p OnTrustDirectory \<in> set (pending c))
     \<or> (\<exists>u. ev = SafeDirectoryResolved u [] \<and> AwaitSafeDirectory u [] \<in> set (pending c))
     \<or> (ev = TrustClicked \<and> \<not> truthy (repositoryUnsafePath (state c)) \<and> path (state c) = [])"
proof (cases ev)
  case (PathChanged p)
  with assms show ?thesis
    by (auto simp: onPathChanged_def updatePath_def validatePath_def split: if_splits)
next
  case (FilePicked picked)
  with assms show ?thesis
    by (cases picked)
       (auto simp: showFilePicker_def updatePath_def validatePath_def split: if_splits)
next
  case Mounted
  with assms show ?thesis
    by (auto simp: componentDidMount_def validatePath_def split: if_splits)
next
  case TrustClicked
  with assms show ?thesis
    by (auto simp: onTrustDirectory_def Let_def validatePath_def split: if_splits)
next
  case (RepositoryTypeResolved p who type)
  with assms show ?thesis
    by (auto simp: repositoryTypeResolved_def split: if_splits dest: notin_set_remove1)
next
  case (ValidatePathReturned who)
  with assms show ?thesis
    by (auto simp: validatePathReturned_def Let_def split: if_splits dest: notin_set_remove1)
next
  case (SafeDirectoryResolved u p)
  with assms show ?thesis
    by (auto simp: safeDirectoryResolved_def validatePath_def split: if_splits
        dest: notin_set_remove1)
next
  case (SafeDirectoryRejected u p)
  with assms show ?thesis
    by (auto simp: safeDirectoryRejected_def split: if_splits dest: notin_set_remove1)
qed

text \<open>
  C5, amended. Calling \<^verbatim>\<open>validatePath\<close> again after \<^verbatim>\<open>addSafeDirectory\<close> does not switch
  \<open>isTrustingRepository\<close> off.
  \<^item> The flag changes at two events only: a click on the link switches it on, and
    \<^verbatim>\<open>onTrustDirectory\<close> going on after its awaited \<^verbatim>\<open>validatePath\<close> has returned switches it
    off; every other event leaves it as it is.
  \<^item> \<^verbatim>\<open>onTrustDirectory\<close> gets ready to go on only when the answer of the
    \<^verbatim>\<open>getRepositoryType\<close> call made for it arrives (written into the state or dropped), or,
    for an empty path, when \<^verbatim>\<open>validatePath\<close> returns without a call.
  \<^item> In every run of the component in which the link is not clicked while an earlier run
    of \<^verbatim>\<open>onTrustDirectory\<close> is in flight, the flag is on whenever \<^verbatim>\<open>addSafeDirectory\<close> or the
    validation that follows it is outstanding.
  \<^item> When \<^verbatim>\<open>addSafeDirectory\<close> completes, the validation is outstanding and the flag is
    unchanged; when its answer arrives the flag is unchanged, and after \<^verbatim>\<open>onTrustDirectory\<close>
    has gone on it is off.
  \<^item> The flag has no influence on what an answer does to the other fields, nor on the OK
    button.
\<close>

theorem isTrusting_off_only_after_validatePath_returned:
  "isTrustingRepository (state (step c ev)) =
     (if ev = TrustClicked then True
      else if ev = ValidatePathReturned OnTrustDirectory
              \<and> AwaitValidatePath OnTrustDirectory \<in> set (pending c) then False
      else isTrustingRepository (state c))
   \<and> (AwaitValidatePath OnTrustDirectory \<in> set (pending (step c ev)) \<longrightarrow>
        AwaitValidatePath OnTrustDirectory \<in> set (pending c)
        \<or> (\<exists>q t. ev = RepositoryTypeResolved q OnTrustDirectory t
              \<and> AwaitRepositoryType q OnTrustDirectory \<in> set (pending c))
        \<or> (\<exists>v. ev = SafeDirectoryResolved v [] \<and> AwaitSafeDirectory v [] \<in> set (pending c))
        \<or> (ev = TrustClicked \<and> \<not> truthy (repositoryUnsafePath (state c))
            \<and> path (state c) = []))
   \<and> (trustFlowsApart (constructor propsPath) evs
        \<and> trustInFlight (run (constructor propsPath) evs) \<longrightarrow>
        isTrustingRepository (state (run (constructor propsPath) evs)))
   \<and> (AwaitSafeDirectory u p \<in> set (pending c) \<longrightarrow>
        pending (step c (SafeDirectoryResolved u p)) =
          remove1 (AwaitSafeDirectory u p) (pending c)
          @ [if p = [] then AwaitValidatePath OnTrustDirectory
             else AwaitRepositoryType p OnTrustDirectory]
        \<and> isTrustingRepository (state (step c (SafeDirectoryResolved u p))) =
            isTrustingRepository (state c))
   \<and> (AwaitRepositoryType p OnTrustDirectory \<in> set (pending c) \<longrightarrow>
        isTrustingRepository (state (run c [RepositoryTypeResolved p OnTrustDirectory type])) =
          isTrustingRepository (state c)
        \<and> \<not> isTrustingRepository (state (run c
              [RepositoryTypeResolved p OnTrustDirectory type,
               ValidatePathReturned OnTrustDirectory])))
   \<and> applyRepositoryType p type (s\<lparr> isTrustingRepository := b \<rparr>) =
       (applyRepositoryType p type s)\<lparr> isTrustingRepository := b \<rparr>
   \<and> okButtonDisabled (s\<lparr> isTrustingRepository := b \<rparr>) = okButtonDisabled s"
proof (intro conjI impI)
  show "isTrustingRepository (state (step c ev)) =
     (if ev = TrustClicked then True
      else if ev = ValidatePathReturned OnTrustDirectory
              \<and> AwaitValidatePath OnTrustDirectory \<in> set (pending c) then False
      else isTrustingRepository (state c))"
    by (rule isTrusting_step)
next
  assume "AwaitValidatePath OnTrustDirectory \<in> set (pending (step c ev))"
  then show "AwaitValidatePath OnTrustDirectory \<in> set (pending c)
        \<or> (\<exists>q t. ev = RepositoryTypeResolved q OnTrustDirectory t
              \<and> AwaitRepositoryType q OnTrustDirectory \<in> set (pending c))
        \<or> (\<exists>v. ev = SafeDirectoryResolved v [] \<and> AwaitSafeDirectory v [] \<in> set (pending c))
        \<or> (ev = TrustClicked \<and> \<not> truthy (repositoryUnsafePath (state c))
            \<and> path (state c) = [])"
    by (rule validatePathReturn_ready)
next
  assume "trustFlowsApart (constructor propsPath) evs
        \<and> trustInFlight (run (constructor propsPath) evs)"
  moreover from this have "oneTrustFlow (run (constructor propsPath) evs)"
    by (intro oneTrustFlow_run oneTrustFlow_constructor) simp
  ultimately show "isTrustingRepository (state (run (constructor propsPath) evs))"
    by (simp add: oneTrustFlow_def)
next
  assume "AwaitSafeDirectory u p \<in> set (pending c)"
  then show "pending (step c (SafeDirectoryResolved u p)) =
          remove1 (AwaitSafeDirectory u p) (pending c)
          @ [if p = [] then AwaitValidatePath OnTrustDirectory
             else AwaitRepositoryType p OnTrustDirectory]"
    by (simp add: safeDirectoryResolved_def validatePath_def)
next
  show "isTrustingRepository (state (step c (SafeDirectoryResolved u p))) =
            isTrustingRepository (state c)"
    by (simp add: isTrusting_step del: step.simps)
next
  show "isTrustingRepository (state (run c [RepositoryTypeResolved p OnTrustDirectory type])) =
          isTrustingRepository (state c)"
    by (simp add: run_def isTrusting_step del: step.simps)
next
  assume "AwaitRepositoryType p OnTrustDirectory \<in> set (pending c)"
  then have "AwaitValidatePath OnTrustDirectory
      \<in> set (pending (step c (RepositoryTypeResolved p OnTrustDirectory type)))"
    by (simp add: repositoryTypeResolved_def)
  then show "\<not> isTrustingRepository (state (run c
              [RepositoryTypeResolved p OnTrustDirectory type,
               ValidatePathReturned OnTrustDirectory]))"
    by (simp add: run_def isTrusting_step del: step.simps)
next
  show "applyRepositoryType p type (s\<lparr> isTrustingRepository := b \<rparr>) =
       (applyRepositoryType p type s)\<lparr> isTrustingRepository := b \<rparr>"
    by (simp add: applyRepositoryType_def Let_def)
  show "okButtonDisabled (s\<lparr> isTrustingRepository := b \<rparr>) = okButtonDisabled s"
    by (simp add: okButtonDisabled_def)
qed

theorem isTrusting_off_only_after_validatePath_returned_witness:
  "trustFlowsApart (constructor None)
      [PathChanged ''/repo'',
       RepositoryTypeResolved ''/repo'' UpdatePath (Unsafe ''/repo''),
       ValidatePathReturned UpdatePath,
       TrustClicked,
       SafeDirectoryResolved ''/repo'' ''/repo'']
   \<and> trustInFlight (run (constructor None)
      [PathChanged ''/repo'',
       RepositoryTypeResolved ''/repo'' UpdatePath (Unsafe ''/repo''),
       ValidatePathReturned UpdatePath,
       TrustClicked,
       SafeDirectoryResolved ''/repo'' ''/repo''])
   \<and> isTrustingRepository (state (run (constructor None)
      [PathChanged ''/repo'',
       RepositoryTypeResolved ''/repo'' UpdatePath (Unsafe ''/repo''),
       ValidatePathReturned UpdatePath,
       TrustClicked,
       SafeDirectoryResolved ''/repo'' ''/repo'']))
   \<and> AwaitRepositoryType ''/repo'' OnTrustDirectory \<in> set (pending (run (constructor None)
      [PathChanged ''/repo'',
       RepositoryTypeResolved ''/repo'' UpdatePath (Unsafe ''/repo''),
       ValidatePathReturned UpdatePath,
       TrustClicked,
       SafeDirectoryResolved ''/repo'' ''/repo'']))
   \<and> \<not> isTrustingRepository (state (run (run (constructor None)
      [PathChanged ''/repo'',
       RepositoryTypeResolved ''/repo'' UpdatePath (Unsafe ''/repo''),
       ValidatePathReturned UpdatePath,
       TrustClicked,
       SafeDirectoryResolved ''/repo'' ''/repo''])
      [RepositoryTypeResolved ''/repo'' OnTrustDirectory Regular,
       ValidatePathReturned OnTrustDirectory]))"
proof -
  have apart: "trustFlowsApart (constructor None)
      [PathChanged ''/repo'',
       RepositoryTypeResolved ''/repo'' UpdatePath (Unsafe ''/repo''),
       ValidatePathReturned UpdatePath,
       TrustClicked,
       SafeDirectoryResolved ''/repo'' ''/repo'']"
    by (simp add: handler_defs trustInFlight_def)
  have cfg: "run (constructor None)
      [PathChanged ''/repo'',
       RepositoryTypeResolved ''/repo'' UpdatePath (Unsafe ''/repo''),
       ValidatePathReturned UpdatePath,
       TrustClicked,
       SafeDirectoryResolved ''/repo'' ''/repo''] =
     \<lparr> state = \<lparr> path = ''/repo'', isRepository = False, showNonGitRepositoryWarning = True,
                 isRepositoryBare = False, isRepositoryUnsafe = True,
                 repositoryUnsafePath = Some ''/repo'', isTrustingRepository = True \<rparr>,
       pending = [AwaitRepositoryType ''/repo'' OnTrustDirectory],
       calls = [GetRepositoryType ''/repo'', AddSafeDirectory ''/repo'',
                GetRepositoryType ''/repo''],
       unhandledRejections = 0 \<rparr>"
    by (simp add: handler_defs)
  have flight: "trustInFlight (run (constructor None)
      [PathChanged ''/repo'',
       RepositoryTypeResolved ''/repo'' UpdatePath (Unsafe ''/repo''),
       ValidatePathReturned UpdatePath,
       TrustClicked,
       SafeDirectoryResolved ''/repo'' ''/repo''])"
    unfolding cfg by (simp add: trustInFlight_def)
  have waiting: "AwaitRepositoryType ''/repo'' OnTrustDirectory \<in> set (pending (run (constructor None)
      [PathChanged ''/repo'',
       RepositoryTypeResolved ''/repo'' UpdatePath (Unsafe ''/repo''),
       ValidatePathReturned UpdatePath,
       TrustClicked,
       SafeDirectoryResolved ''/repo'' ''/repo'']))"
    unfolding cfg by simp
  show ?thesis
    using apart flight waiting
      isTrusting_off_only_after_validatePath_returned
        [where propsPath = None and evs = "[PathChanged ''/repo'',
           RepositoryTypeResolved ''/repo'' UpdatePath (Unsafe ''/repo''),
           ValidatePathReturned UpdatePath,
           TrustClicked,
           SafeDirectoryResolved ''/repo'' ''/repo'']"
         and p = "''/repo''" and type = Regular
         and c = "run (constructor None)
          [PathChanged ''/repo'',
           RepositoryTypeResolved ''/repo'' UpdatePath (Unsafe ''/repo''),
           ValidatePathReturned UpdatePath,
           TrustClicked,
           SafeDirectoryResolved ''/repo'' ''/repo'']"]
    by blast
qed

subsection \<open>Resolving the entered path\<close>

lemma splitSegments_no_slash: "seg \<in> set (splitSegments s) \<Longrightarrow> CHR ''/'' \<notin> set seg"
  by (induction s arbitrary: seg) (auto split: list.splits if_splits)

lemma splitSegments_segment:
  "CHR ''/'' \<notin> set seg \<Longrightarrow> splitSegments (seg @ CHR ''/'' # rest) = seg # splitSegments rest"
  by (induction seg) auto

lemma normalizeSegment_plain:
  assumes "\<forall>s \<in> set res. plainSegment s" and "CHR ''/'' \<notin> set seg"
  shows "\<forall>s \<in> set (normalizeSegment False res seg). plainSegment s"
  using assms by (auto simp: normalizeSegment_def plainSegment_def dest: in_set_butlastD)

lemma foldl_normalizeSegment_plain:
  "\<forall>s \<in> set res. plainSegment s \<Longrightarrow> \<forall>seg \<in> set segs. CHR ''/'' \<notin> set seg \<Longrightarrow>
   \<forall>s \<in> set (foldl (normalizeSegment False) res segs). plainSegment s"
proof (induction segs arbitrary: res)
  case Nil
  then show ?case by simp
next
  case (Cons seg segs)
  have "\<forall>s \<in> set (normalizeSegment False res seg). plainSegment s"
    using Cons.prems by (intro normalizeSegment_plain) auto
  then show ?case using Cons by simp
qed

lemma normalizeSegment_keeps_plain:
  "plainSegment seg \<Longrightarrow> normalizeSegment a res seg = res @ [seg]"
  by (simp add: normalizeSegment_def plainSegment_def)

text \<open>Splitting a joined list of plain segments gives the segments back, untouched.\<close>

lemma foldl_split_join:
  "\<forall>s \<in> set segs. plainSegment s \<Longrightarrow>
   foldl (normalizeSegment a) res (splitSegments (joinSegments segs @ ''/'')) = res @ segs"
proof (induction segs arbitrary: res rule: joinSegments.induct)
  case 1
  show ?case by (simp add: normalizeSegment_def)
next
  case (2 seg)
  then have g: "plainSegment seg" by simp
  then have "splitSegments (seg @ ''/'') = [seg, []]"
    using splitSegments_segment [of seg "[]"] by (simp add: plainSegment_def)
  with g show ?case
    by (simp add: normalizeSegment_keeps_plain) (simp add: normalizeSegment_def)
next
  case (3 seg s2 segs)
  then have g: "plainSegment seg" and rest: "\<forall>s \<in> set (s2 # segs). plainSegment s"
    by simp_all
  have "splitSegments (joinSegments (seg # s2 # segs) @ ''/'') =
        seg # splitSegments (joinSegments (s2 # segs) @ ''/'')"
    using g splitSegments_segment [of seg "joinSegments (s2 # segs) @ ''/''"]
    by (simp add: plainSegment_def)
  then show ?case using "3.IH" [OF rest, of "res @ [seg]"] g
    by (simp add: normalizeSegment_keeps_plain)
qed

lemma normalizeString_plain:
  "\<exists>segs. (\<forall>s \<in> set segs. plainSegment s) \<and> normalizeString p False = joinSegments segs"
  unfolding normalizeString_def
  using foldl_normalizeSegment_plain [of "[]" "splitSegments p"] splitSegments_no_slash
  by (intro exI [of _ "foldl (normalizeSegment False) [] (splitSegments p)"]) auto

lemma resolveArguments_root:
  "resolveArguments (rev [''/'', x] @ [cwd]) [] =
     ((if x = [] then ''//'' else if hd x = CHR ''/'' then x @ ''/'' else ''//'' @ x @ ''/''), True)"
  by simp

lemma resolve_root:
  "resolve cwd [''/'', x] =
     CHR ''/'' # normalizeString (if x = [] then ''//'' else if hd x = CHR ''/'' then x @ ''/''
                                   else ''//'' @ x @ ''/'') False"
  unfolding resolve_def resolveArguments_root by (simp add: Let_def)

lemma resolve_root_fixed:
  assumes "\<forall>s \<in> set segs. plainSegment s"
  shows "resolve cwd [''/'', CHR ''/'' # joinSegments segs] = CHR ''/'' # joinSegments segs"
proof -
  have "foldl (normalizeSegment False) [] (splitSegments (CHR ''/'' # joinSegments segs @ ''/''))
        = foldl (normalizeSegment False) [] (splitSegments (joinSegments segs @ ''/''))"
    by (simp add: normalizeSegment_def)
  also have "\<dots> = segs"
    using foldl_split_join [OF assms, of False "[]"] by simp
  finally show ?thesis
    by (simp add: resolve_root normalizeString_def)
qed

lemma untildify_absolute: "untildify h (CHR ''/'' # r) = CHR ''/'' # r"
  by (simp add: untildify_def)

text \<open>
  C7. Resolving a resolved path gives it back: \<^verbatim>\<open>resolvedPath\<close> applied twice is
  \<^verbatim>\<open>resolvedPath\<close> applied once, for every entered path, home directory and working
  directory. The result of the first pass is \<^verbatim>\<open>/\<close> followed by plain segments joined by
  slashes; it does not start with \<^verbatim>\<open>~\<close>, so nothing is expanded, it is absolute, and it has
  no segment to remove.
\<close>

theorem resolvedPath_idempotent:
  "resolvedPath h cwd (resolvedPath h cwd p) = resolvedPath h cwd p"
proof -
  obtain segs where g: "\<forall>s \<in> set segs. plainSegment s"
    and out: "resolvedPath h cwd p = CHR ''/'' # joinSegments segs"
    unfolding resolvedPath_def resolve_root using normalizeString_plain by metis
  show ?thesis
    unfolding out
    by (simp add: resolvedPath_def untildify_absolute resolve_root_fixed [OF g]
        del: joinSegments.simps)
qed

theorem resolvedPath_idempotent_witness:
  "resolvedPath ''/home/alice'' ''/'' ''~/repo/../x/'' = ''/home/alice/x''
   \<and> resolvedPath ''/home/alice'' ''/'' ''/home/alice/x'' = ''/home/alice/x''"
  using resolvedPath_idempotent [of "''/home/alice''" "''/''" "''~/repo/../x/''"]
  by (simp add: resolvedPath_def resolve_def untildify_def normalizeString_def
      normalizeSegment_def)

end
